theory Spec2Isabelle
  imports Main "HOL-Library.Sublist"
begin

section \<open>Data model\<close>

text \<open>
  Objects live at addresses. A static \<open>instance_\<close> pointer is an \<open>addr option\<close>
  (\<open>None\<close> is \<open>nullptr\<close>); the objects themselves are kept in a store, so that a
  pointer can outlive the object it points to (\<open>delete\<close> removes the object, not the
  pointer).
\<close>

type_synonym addr = nat

text \<open>\<open>Component*\<close>: a component is known to a Manager only by its pointer.\<close>

type_synonym component = addr

text \<open>The members of \<open>PapagayoEngine\<close> that the source file reads or writes.\<close>

record PapagayoEngine =
  appName :: string
  running :: bool

text \<open>
  \<open>enum class ManID\<close>, with the enumerators the sources name, and the members of the
  \<open>Manager\<close> base class.
\<close>

datatype ManID = Physics | Render | UI

record Manager =
  compsList :: "component list"
  manId :: ManID

text \<open>
  Everything the sources call but do not define is an external call: the Ogre
  context, the resource and scene managers, the render root, the component hooks and
  the CEGUI toolkit. A call is recorded when it is made. \<open>Update\<close> stands for a call
  of \<open>update()\<close> on one of the managers that \<open>init\<close> sets up; no source file makes
  it.
\<close>

datatype singleton = OgreContext | ResourceManager | SceneManager

text \<open>The statements of the \<open>UIManager\<close> constructor, in source order.\<close>

datatype ui_call =
    getOgreRoot
  | getRenderWindow
  | getRenderTarget
  | bootstrapSystem
  | setUsingShaders
  | getDefaultGUIContext
  | setDefaultResourceGroup string
  | WindowManager_getSingleton
  | createWindow
  | setRootWindow
  | getCustomAttribute
  | getMetrics
  | notifyDisplaySizeChanged
  | addFrameListener

datatype call =
    SetupInstance singleton
  | Clean singleton
  | Update singleton
  | SetupRTShaderGenerator
  | New_MeshComponent
  | RenderOneFrame
  | Component_setUp component
  | Component_update component
  | CEGUI ui_call

text \<open>
  What C++ can throw: an exception derived from \<open>std::exception\<close>, carrying its
  \<open>what()\<close> text (\<open>std::runtime_error\<close> is one), or a value of any other type, such
  as the string literal thrown by \<open>PapagayoEngine::getInstance\<close>.
\<close>

datatype exn = StdException string | OtherException

text \<open>An external call returns (a \<open>bool\<close>, ignored by \<open>void\<close> callers) or throws.\<close>

datatype outcome = Returns bool | Throws exn

text \<open>
  The environment answers every external call from the history of calls made so far.
  No source file under study assigns \<open>running_\<close>, so the assignment is the
  environment's as well: while an external call runs, it may store a value into the
  engine's \<open>running_\<close> member.
\<close>

record env =
  respond :: "call \<Rightarrow> call list \<Rightarrow> outcome"
  flag_write :: "call \<Rightarrow> call list \<Rightarrow> bool option"

record world =
  PapagayoEngine_instance :: "addr option"
  engines :: "addr \<rightharpoonup> PapagayoEngine"
  UIManager_instance :: "addr option"
  uimanagers :: "addr \<rightharpoonup> Manager"
  next_addr :: addr
  calls :: "call list"

text \<open>Undefined behaviour (use or deletion of a destroyed object) is a result of its own.\<close>

datatype fault = Thrown exn | UndefinedBehaviour

section \<open>External calls\<close>

definition write_running :: "bool option \<Rightarrow> world \<Rightarrow> world" where
  "write_running v w =
     (case v of
        None \<Rightarrow> w
      | Some b \<Rightarrow>
          (case PapagayoEngine_instance w of
             None \<Rightarrow> w
           | Some a \<Rightarrow>
               (case engines w a of
                  None \<Rightarrow> w
                | Some e \<Rightarrow> w\<lparr>engines := (engines w)(a \<mapsto> e\<lparr>running := b\<rparr>)\<rparr>)))"

definition ext :: "env \<Rightarrow> call \<Rightarrow> world \<Rightarrow> outcome \<times> world" where
  "ext E c w =
     (respond E c (calls w),
      write_running (flag_write E c (calls w)) (w\<lparr>calls := calls w @ [c]\<rparr>))"

section \<open>PapagayoEngine: the singleton\<close>

text \<open>
  The constructor initialises \<open>appName_\<close> only; the initial value of \<open>running_\<close>
  comes from the class declaration, which is a parameter here.
\<close>

definition PapagayoEngine_ctor :: "bool \<Rightarrow> string \<Rightarrow> PapagayoEngine" where
  "PapagayoEngine_ctor r name = \<lparr>appName = name, running = r\<rparr>"

definition setupInstance :: "bool \<Rightarrow> string \<Rightarrow> world \<Rightarrow> bool \<times> world" where
  "setupInstance r name w =
     (if PapagayoEngine_instance w = None then
        (True,
         w\<lparr>PapagayoEngine_instance := Some (next_addr w),
           engines := (engines w)(next_addr w \<mapsto> PapagayoEngine_ctor r name),
           next_addr := Suc (next_addr w)\<rparr>)
      else (False, w))"

definition getInstance :: "bool \<Rightarrow> world \<Rightarrow> (exn + addr option) \<times> world" where
  "getInstance r w =
     (if PapagayoEngine_instance w = None then
        (case setupInstance r ''PAPAGAYO ENGINE'' w of
           (False, w') \<Rightarrow> (Inl OtherException, w')
         | (True, w') \<Rightarrow> (Inr (PapagayoEngine_instance w'), w'))
      else (Inr (PapagayoEngine_instance w), w))"

text \<open>
  \<open>clean\<close>: the two manager clean-ups, then \<open>delete instance_\<close>. Deleting a null
  pointer does nothing; deleting a live object destroys it and leaves the pointer as it
  is; deleting a destroyed object is undefined.
\<close>

definition delete_instance :: "world \<Rightarrow> (fault + unit) \<times> world" where
  "delete_instance w =
     (case PapagayoEngine_instance w of
        None \<Rightarrow> (Inr (), w)
      | Some a \<Rightarrow>
          (case engines w a of
             None \<Rightarrow> (Inl UndefinedBehaviour, w)
           | Some e \<Rightarrow> (Inr (), w\<lparr>engines := (engines w)(a := None)\<rparr>)))"

definition clean :: "env \<Rightarrow> world \<Rightarrow> (fault + unit) \<times> world" where
  "clean E w =
     (case ext E (Clean SceneManager) w of
        (Throws x, w1) \<Rightarrow> (Inl (Thrown x), w1)
      | (Returns b1, w1) \<Rightarrow>
          (case ext E (Clean ResourceManager) w1 of
             (Throws x, w2) \<Rightarrow> (Inl (Thrown x), w2)
           | (Returns b2, w2) \<Rightarrow> delete_instance w2))"

text \<open>A client's later calls on the singleton interface, and what each returns.\<close>

datatype engine_call = Call_setupInstance string | Call_getInstance

datatype engine_reply = Reply_bool bool | Reply_pointer "addr option" | Reply_throw exn

fun engine_step :: "bool \<Rightarrow> engine_call \<Rightarrow> world \<Rightarrow> engine_reply \<times> world" where
  "engine_step r (Call_setupInstance name) w =
     (case setupInstance r name w of (b, w') \<Rightarrow> (Reply_bool b, w'))"
| "engine_step r Call_getInstance w =
     (case getInstance r w of
        (Inl x, w') \<Rightarrow> (Reply_throw x, w')
      | (Inr p, w') \<Rightarrow> (Reply_pointer p, w'))"

fun engine_steps :: "bool \<Rightarrow> engine_call list \<Rightarrow> world \<Rightarrow> engine_reply list \<times> world" where
  "engine_steps r [] w = ([], w)"
| "engine_steps r (c # cs) w =
     (case engine_step r c w of
        (x, w') \<Rightarrow> (case engine_steps r cs w' of (xs, w'') \<Rightarrow> (x # xs, w'')))"

section \<open>PapagayoEngine: init, update, run\<close>

text \<open>
  \<open>try { f(); } catch (const std::exception& e) { throw std::runtime_error(prefix +
  e.what() + "\n"); }\<close>: an exception derived from \<open>std::exception\<close> is replaced
  by a \<open>std::runtime_error\<close> with the prefixed text; any other thrown value is not
  caught by the handler and passes through; the value returned by \<open>f\<close> is dropped.
\<close>

definition rethrow :: "string \<Rightarrow> outcome \<times> world \<Rightarrow> (exn + unit) \<times> world" where
  "rethrow pre r =
     (case r of
        (Returns b, w') \<Rightarrow> (Inr (), w')
      | (Throws (StdException m), w') \<Rightarrow>
          (Inl (StdException (pre @ m @ ''\<newline>'')), w')
      | (Throws OtherException, w') \<Rightarrow> (Inl OtherException, w'))"

text \<open>A call outside any \<open>try\<close> block: whatever it throws leaves the caller.\<close>

definition propagate :: "outcome \<times> world \<Rightarrow> (exn + unit) \<times> world" where
  "propagate r =
     (case r of
        (Returns b, w') \<Rightarrow> (Inr (), w')
      | (Throws x, w') \<Rightarrow> (Inl x, w'))"

definition init :: "env \<Rightarrow> world \<Rightarrow> (exn + unit) \<times> world" where
  "init E w =
     (case rethrow ''OgreContext init fail \<newline>'' (ext E (SetupInstance OgreContext) w) of
        (Inl x, w1) \<Rightarrow> (Inl x, w1)
      | (Inr u1, w1) \<Rightarrow>
     (case rethrow ''ResourceManager init fail \<newline>''
             (ext E (SetupInstance ResourceManager) w1) of
        (Inl x, w2) \<Rightarrow> (Inl x, w2)
      | (Inr u2, w2) \<Rightarrow>
     (case rethrow ''SceneManager init fail \<newline>''
             (ext E (SetupInstance SceneManager) w2) of
        (Inl x, w3) \<Rightarrow> (Inl x, w3)
      | (Inr u3, w3) \<Rightarrow>
     (case propagate (ext E SetupRTShaderGenerator w3) of
        (Inl x, w4) \<Rightarrow> (Inl x, w4)
      | (Inr u4, w4) \<Rightarrow> propagate (ext E New_MeshComponent w4)))))"

definition update :: "env \<Rightarrow> world \<Rightarrow> (exn + unit) \<times> world" where
  "update E w = rethrow ''Fallo de renderizado \<newline>'' (ext E RenderOneFrame w)"

text \<open>
  \<open>run\<close> is a member function and the only \<open>PapagayoEngine\<close> ever constructed is the
  one \<open>setupInstance\<close> stores, so \<open>this\<close> is \<open>instance_\<close>. Reading \<open>running_\<close>
  of an object that does not exist is undefined.
\<close>

definition this_running :: "world \<Rightarrow> bool option" where
  "this_running w =
     (case PapagayoEngine_instance w of
        None \<Rightarrow> None
      | Some a \<Rightarrow> map_option running (engines w a))"

datatype run_result = Finished | Failed fault | OutOfFuel

text \<open>
  \<open>while (running_) { update(); }\<close>. The loop has no bound of its own; the fuel counts
  the calls of \<open>update\<close> still allowed, and is looked at only after the flag.
\<close>

fun run_loop :: "nat \<Rightarrow> env \<Rightarrow> world \<Rightarrow> run_result \<times> world" where
  "run_loop 0 E w =
     (case this_running w of
        None \<Rightarrow> (Failed UndefinedBehaviour, w)
      | Some False \<Rightarrow> (Finished, w)
      | Some True \<Rightarrow> (OutOfFuel, w))"
| "run_loop (Suc n) E w =
     (case this_running w of
        None \<Rightarrow> (Failed UndefinedBehaviour, w)
      | Some False \<Rightarrow> (Finished, w)
      | Some True \<Rightarrow>
          (case update E w of
             (Inl x, w') \<Rightarrow> (Failed (Thrown x), w')
           | (Inr u, w') \<Rightarrow> run_loop n E w'))"

definition run :: "nat \<Rightarrow> env \<Rightarrow> world \<Rightarrow> run_result \<times> world" where
  "run fuel E w =
     (case init E w of
        (Inl x, w') \<Rightarrow> (Failed (Thrown x), w')
      | (Inr u, w') \<Rightarrow> run_loop fuel E w')"

section \<open>Managers\<close>

text \<open>Statements executed one after the other; the first one that throws ends them.\<close>

fun sequence :: "env \<Rightarrow> call list \<Rightarrow> world \<Rightarrow> (exn + unit) \<times> world" where
  "sequence E [] w = (Inr (), w)"
| "sequence E (c # cs) w =
     (case propagate (ext E c w) of
        (Inl x, w') \<Rightarrow> (Inl x, w')
      | (Inr u, w') \<Rightarrow> sequence E cs w')"

text \<open>
  The member functions below run on a Manager object and hand back the object as they
  leave it, next to what they return or throw. A component hook is an external call:
  it returns or throws, and nothing in the sources shows one that touches the list it
  is called from.
\<close>





section \<open>UIManager: the singleton\<close>

text \<open>
  The constructor body, \<open>createFrameListener\<close> and \<open>windowResized\<close> inlined. It
  registers no component type; the list of components starts empty.
\<close>

definition UIManager_ctor_calls :: "call list" where
  "UIManager_ctor_calls =
     map CEGUI
       [getOgreRoot, getRenderWindow, getRenderTarget, bootstrapSystem, setUsingShaders,
        getDefaultGUIContext,
        setDefaultResourceGroup ''Imagesets'', setDefaultResourceGroup ''Fonts'',
        setDefaultResourceGroup ''Schemes'', setDefaultResourceGroup ''Looknfeel'',
        setDefaultResourceGroup ''Layouts'', setDefaultResourceGroup ''Animations'',
        WindowManager_getSingleton, createWindow, setRootWindow,
        getCustomAttribute, getMetrics, notifyDisplaySizeChanged, addFrameListener]"

definition UIManager_ctor :: "env \<Rightarrow> world \<Rightarrow> (exn + Manager) \<times> world" where
  "UIManager_ctor E w =
     (case sequence E UIManager_ctor_calls w of
        (Inl x, w') \<Rightarrow> (Inl x, w')
      | (Inr u, w') \<Rightarrow> (Inr \<lparr>compsList = [], manId = UI\<rparr>, w'))"

text \<open>
  \<open>instance_ = new UIManager()\<close> assigns only after the constructor has returned;
  \<open>catch (...)\<close> takes every thrown value.
\<close>

definition setUpInstance :: "env \<Rightarrow> world \<Rightarrow> bool \<times> world" where
  "setUpInstance E w =
     (if UIManager_instance w = None then
        (case UIManager_ctor E w of
           (Inl x, w') \<Rightarrow> (False, w')
         | (Inr m, w') \<Rightarrow>
             (True,
              w'\<lparr>UIManager_instance := Some (next_addr w'),
                 uimanagers := (uimanagers w')(next_addr w' \<mapsto> m),
                 next_addr := Suc (next_addr w')\<rparr>))
      else (True, w))"

definition UIManager_getInstance :: "world \<Rightarrow> addr option" where
  "UIManager_getInstance w = UIManager_instance w"

section \<open>Scene\<close>

type_synonym entity = addr

text \<open>
  The members declared in the \<open>Scene\<close> class (\<open>name\<close> is \<open>sceneName\<close> here).
  \<open>usedNames\<close> is declared with \<open>int\<close> values; the counter starts at 0 and is only
  ever incremented.
\<close>

record Scene =
  entities :: "string \<rightharpoonup> entity"
  usedNames :: "string \<rightharpoonup> nat"
  sceneName :: string

text \<open>Modelled from the spec: the body of the \<open>Scene\<close> constructor is not among the
  sources. A new Scene holds no entity and no counter.\<close>

definition Scene_ctor :: Scene where
  "Scene_ctor = \<lparr>entities = Map.empty, usedNames = Map.empty, sceneName = []\<rparr>"

text \<open>\<open>std::to_string\<close> on a non-negative number: its decimal digits.\<close>

definition digit :: "nat \<Rightarrow> char" where
  "digit d = char_of (48 + d)"

function to_string :: "nat \<Rightarrow> string" where
  "to_string n = (if n < 10 then [digit n] else to_string (n div 10) @ [digit (n mod 10)])"
  by pat_completeness auto
termination
  by (relation "measure id") auto

declare to_string.simps [simp del]

text \<open>Modelled from the spec: the body of \<open>Scene::addEntity\<close> is not among the sources
  (only its declaration is). An unused name is inserted as it is; a used name bumps the
  counter kept for that base name and inserts under the base name, an underscore and the
  counter.\<close>

definition addEntity :: "string \<Rightarrow> entity \<Rightarrow> Scene \<Rightarrow> Scene" where
  "addEntity n ent sc =
     (if entities sc n = None then sc\<lparr>entities := (entities sc)(n \<mapsto> ent)\<rparr>
      else
        (let c = Suc (case usedNames sc n of None \<Rightarrow> 0 | Some k \<Rightarrow> k)
         in sc\<lparr>entities := (entities sc)(n @ ''_'' @ to_string c \<mapsto> ent),
               usedNames := (usedNames sc)(n \<mapsto> c)\<rparr>))"

text \<open>Modelled from the spec: \<open>Scene::getEntity\<close>, an exact-key lookup.\<close>

definition getEntity :: "string \<Rightarrow> Scene \<Rightarrow> entity option" where
  "getEntity n sc = entities sc n"

text \<open>The same base name added once for each entity of a list, first to last.\<close>

definition addEntities :: "string \<Rightarrow> entity list \<Rightarrow> Scene \<Rightarrow> Scene" where
  "addEntities n es sc = fold (addEntity n) es sc"

section \<open>Vocabulary of the statements, concrete worlds and environments\<close>

text \<open>Program start: both static pointers are null and nothing has been called.\<close>

definition world0 :: world where
  "world0 =
     \<lparr>PapagayoEngine_instance = None, engines = Map.empty,
      UIManager_instance = None, uimanagers = Map.empty,
      next_addr = 0, calls = []\<rparr>"

text \<open>An environment in which every external call returns and nobody stops the engine.\<close>

definition env_ok :: env where
  "env_ok = \<lparr>respond = (\<lambda>c h. Returns True), flag_write = (\<lambda>c h. None)\<rparr>"

text \<open>Booting the GUI renderer throws a value that is not a \<open>std::exception\<close>.\<close>

definition env_gui_fails :: env where
  "env_gui_fails =
     \<lparr>respond = (\<lambda>c h. if c = CEGUI bootstrapSystem
                         then Throws OtherException else Returns True),
      flag_write = (\<lambda>c h. None)\<rparr>"

text \<open>The steps of \<open>init\<close>, in source order, and the subsystem named by each handler.\<close>

definition init_order :: "call list" where
  "init_order =
     [SetupInstance OgreContext, SetupInstance ResourceManager, SetupInstance SceneManager,
      SetupRTShaderGenerator, New_MeshComponent]"

definition subsystem_name :: "nat \<Rightarrow> string" where
  "subsystem_name i = [''OgreContext'', ''ResourceManager'', ''SceneManager''] ! i"

text \<open>The claim's "fatal error identifying the failed subsystem": a \<open>std::exception\<close>
  whose text starts with the subsystem's name.\<close>

definition names_subsystem :: "string \<Rightarrow> exn + unit \<Rightarrow> bool" where
  "names_subsystem s r =
     (case r of Inl (StdException msg) \<Rightarrow> prefix s msg | Inl OtherException \<Rightarrow> False
      | Inr u \<Rightarrow> False)"

text \<open>Setting up the scene manager throws a \<open>std::exception\<close>.\<close>

definition env_scene_fails :: env where
  "env_scene_fails =
     \<lparr>respond = (\<lambda>c h. if c = SetupInstance SceneManager
                         then Throws (StdException ''no scene'') else Returns True),
      flag_write = (\<lambda>c h. None)\<rparr>"

text \<open>Setting up the Ogre context throws a value that is not a \<open>std::exception\<close>.\<close>

definition env_ogre_foreign :: env where
  "env_ogre_foreign =
     \<lparr>respond = (\<lambda>c h. if c = SetupInstance OgreContext
                         then Throws OtherException else Returns True),
      flag_write = (\<lambda>c h. None)\<rparr>"

text \<open>Every call returns true the first time it is made and false from then on, as a
  \<open>setupInstance\<close> that finds its singleton in place does.\<close>

definition env_once :: env where
  "env_once = \<lparr>respond = (\<lambda>c h. Returns (c \<notin> set h)), flag_write = (\<lambda>c h. None)\<rparr>"

text \<open>
  The value of \<open>running_\<close> at the top of iteration \<open>j\<close> of the loop in \<open>run\<close>, when the
  loop is entered with value \<open>r\<close> after the calls \<open>h\<close> and every frame so far has
  returned: \<open>r\<close>, overwritten by whatever the frames before \<open>j\<close> stored.
\<close>

fun flag_at :: "env \<Rightarrow> call list \<Rightarrow> bool \<Rightarrow> nat \<Rightarrow> bool" where
  "flag_at E h r 0 = r"
| "flag_at E h r (Suc j) =
     (case flag_write E RenderOneFrame (h @ replicate j RenderOneFrame) of
        None \<Rightarrow> flag_at E h r j
      | Some v \<Rightarrow> v)"

text \<open>The claim's \<open>update\<close>: one frame, then each Manager set up by \<open>init\<close>, in that order.\<close>

definition init_managers :: "singleton list" where
  "init_managers = [ResourceManager, SceneManager]"

definition update_calls_spec :: "call list" where
  "update_calls_spec = RenderOneFrame # map Update init_managers"

text \<open>The third frame (the eighth call) clears \<open>running_\<close>.\<close>

definition env_stop_in_third_frame :: env where
  "env_stop_in_third_frame =
     \<lparr>respond = (\<lambda>c h. Returns True),
      flag_write = (\<lambda>c h. if length h = 7 then Some False else None)\<rparr>"

text \<open>The third frame throws a \<open>std::exception\<close>.\<close>

definition env_third_frame_fails :: env where
  "env_third_frame_fails =
     \<lparr>respond = (\<lambda>c h. if length h = 7 then Throws (StdException ''device lost'')
                         else Returns True),
      flag_write = (\<lambda>c h. None)\<rparr>"

text \<open>A world in which the engine has been created with \<open>running_\<close> set.\<close>

definition world_engine :: world where
  "world_engine = snd (setupInstance True ''game'' world0)"




text \<open>The key under which the \<open>i\<close>-th use of the base name \<open>n\<close> is stored, counting from 0.\<close>

definition entity_key :: "string \<Rightarrow> nat \<Rightarrow> string" where
  "entity_key n i = (if i = 0 then n else n @ ''_'' @ to_string i)"

section \<open>Facts about external calls\<close>

lemma ext_instance [simp]:
  "PapagayoEngine_instance (snd (ext E c w)) = PapagayoEngine_instance w"
  by (simp add: ext_def write_running_def split: option.splits)

lemma ext_calls [simp]: "calls (snd (ext E c w)) = calls w @ [c]"
  by (simp add: ext_def write_running_def split: option.splits)

lemma ext_fst [simp]: "fst (ext E c w) = respond E c (calls w)"
  by (simp add: ext_def)

lemma ext_live [simp]: "(engines (snd (ext E c w)) a = None) = (engines w a = None)"
  by (simp add: ext_def write_running_def split: option.splits)

lemma ext_ui [simp]:
  "UIManager_instance (snd (ext E c w)) = UIManager_instance w"
  "uimanagers (snd (ext E c w)) = uimanagers w"
  "next_addr (snd (ext E c w)) = next_addr w"
  by (simp_all add: ext_def write_running_def split: option.splits)

section \<open>The engine singleton\<close>

lemma setupInstance_existing:
  "PapagayoEngine_instance w \<noteq> None \<Longrightarrow> setupInstance r n w = (False, w)"
  by (simp add: setupInstance_def)

lemma setupInstance_True:
  "setupInstance r n w = (True, w1) \<Longrightarrow> PapagayoEngine_instance w1 \<noteq> None"
  by (auto simp: setupInstance_def split: if_splits)

lemma getInstance_existing:
  "PapagayoEngine_instance w = Some a \<Longrightarrow> getInstance r w = (Inr (Some a), w)"
  by (simp add: getInstance_def)

lemma engine_steps_existing:
  "PapagayoEngine_instance w = Some a \<Longrightarrow>
   engine_steps r cs w =
     (map (\<lambda>c. case c of Call_setupInstance n \<Rightarrow> Reply_bool False
                 | Call_getInstance \<Rightarrow> Reply_pointer (Some a)) cs, w)"
proof (induction cs)
  case Nil
  show ?case by simp
next
  case (Cons c cs)
  then show ?case
    by (cases c) (simp_all add: setupInstance_existing getInstance_existing)
qed

lemma ext_eqD:
  assumes "ext E c w = (ou, w')"
  shows "ou = respond E c (calls w)"
    and "PapagayoEngine_instance w' = PapagayoEngine_instance w"
    and "calls w' = calls w @ [c]"
    and "(engines w' a = None) = (engines w a = None)"
    and "UIManager_instance w' = UIManager_instance w"
    and "uimanagers w' = uimanagers w"
    and "next_addr w' = next_addr w"
  using assms ext_fst [of E c w] ext_instance [of E c w] ext_calls [of E c w]
    ext_live [of E c w a] ext_ui [of E c w]
  by simp_all

lemma clean_instance:
  "PapagayoEngine_instance (snd (clean E w)) = PapagayoEngine_instance w"
proof -
  obtain o1 w1 where e1: "ext E (Clean SceneManager) w = (o1, w1)" by force
  obtain o2 w2 where e2: "ext E (Clean ResourceManager) w1 = (o2, w2)" by force
  show ?thesis
    using ext_eqD(2) [OF e1] ext_eqD(2) [OF e2] e1 e2
    by (simp add: clean_def delete_instance_def split: outcome.splits option.splits)
qed

text \<open>
  C9. Once an engine exists, \<open>clean\<close> never resets the static pointer: it still holds
  the same address afterwards, the object at that address is gone exactly when \<open>clean\<close>
  ran to its end, and from then on every \<open>setupInstance\<close> returns false and every
  \<open>getInstance\<close> returns that same address, without changing anything. No second
  engine is ever created.
\<close>

theorem clean_keeps_instance_pointer:
  assumes "PapagayoEngine_instance w = Some a"
      and "engines w a = Some e"
      and "clean E w = (res, w')"
  shows "PapagayoEngine_instance w' = Some a \<and>
         (engines w' a = None) = (res = Inr ()) \<and>
         engine_steps r cs w' =
           (map (\<lambda>c. case c of Call_setupInstance n \<Rightarrow> Reply_bool False
                       | Call_getInstance \<Rightarrow> Reply_pointer (Some a)) cs, w')"
proof -
  have p: "PapagayoEngine_instance w' = Some a"
    using clean_instance [of E w] assms by simp
  obtain o1 w1 where e1: "ext E (Clean SceneManager) w = (o1, w1)" by force
  obtain o2 w2 where e2: "ext E (Clean ResourceManager) w1 = (o2, w2)" by force
  have l1: "engines w1 a \<noteq> None" "PapagayoEngine_instance w1 = Some a"
    using ext_live [of E "Clean SceneManager" w a] ext_instance [of E "Clean SceneManager" w] e1 assms by auto
  have l2: "engines w2 a \<noteq> None" "PapagayoEngine_instance w2 = Some a"
    using ext_live [of E "Clean ResourceManager" w1 a] ext_instance [of E "Clean ResourceManager" w1] e2 l1 by auto
  have d: "(engines w' a = None) = (res = Inr ())"
    using assms(3) e1 e2 l1 l2
    by (auto simp: clean_def delete_instance_def split: outcome.splits option.splits)
  show ?thesis using p d engine_steps_existing [OF p] by simp
qed


theorem clean_keeps_instance_pointer_witness:
  "PapagayoEngine_instance (snd (setupInstance True ''game'' world0)) = Some 0 \<and>
   engines (snd (setupInstance True ''game'' world0)) 0 = Some (PapagayoEngine_ctor True ''game'') \<and>
   fst (clean env_ok (snd (setupInstance True ''game'' world0))) = Inr () \<and>
   PapagayoEngine_instance (snd (clean env_ok (snd (setupInstance True ''game'' world0)))) = Some 0 \<and>
   engines (snd (clean env_ok (snd (setupInstance True ''game'' world0)))) 0 = None \<and>
   fst (engine_steps True [Call_setupInstance ''again'', Call_getInstance]
          (snd (clean env_ok (snd (setupInstance True ''game'' world0))))) =
     [Reply_bool False, Reply_pointer (Some 0)]"
proof -
  let ?w = "snd (setupInstance True ''game'' world0)"
  have a: "PapagayoEngine_instance ?w = Some 0"
    by (simp add: setupInstance_def world0_def)
  have b: "engines ?w 0 = Some (PapagayoEngine_ctor True ''game'')"
    by (simp add: setupInstance_def world0_def)
  have c: "clean env_ok ?w = (fst (clean env_ok ?w), snd (clean env_ok ?w))"
    by simp
  have r: "fst (clean env_ok ?w) = Inr ()"
    by (simp add: clean_def ext_def env_ok_def write_running_def delete_instance_def
        setupInstance_def world0_def)
  show ?thesis
    using clean_keeps_instance_pointer [OF a b c, of True "[Call_setupInstance ''again'', Call_getInstance]"] a b r
    by simp
qed

section \<open>Sequences of external calls\<close>

lemma sequence_Cons:
  "sequence E (c # cs) w =
     (case respond E c (calls w) of
        Throws x \<Rightarrow> (Inl x, snd (ext E c w))
      | Returns b \<Rightarrow> sequence E cs (snd (ext E c w)))"
  by (simp add: propagate_def ext_def split: outcome.splits)

lemma sequence_UIManager_instance [simp]:
  "UIManager_instance (snd (sequence E cs w)) = UIManager_instance w"
  by (induction cs arbitrary: w) (simp_all add: sequence_Cons del: sequence.simps(2) split: outcome.splits)

lemma sequence_uimanagers [simp]:
  "uimanagers (snd (sequence E cs w)) = uimanagers w"
  by (induction cs arbitrary: w) (simp_all add: sequence_Cons del: sequence.simps(2) split: outcome.splits)

lemma sequence_next_addr [simp]:
  "next_addr (snd (sequence E cs w)) = next_addr w"
  by (induction cs arbitrary: w) (simp_all add: sequence_Cons del: sequence.simps(2) split: outcome.splits)

section \<open>The UIManager singleton\<close>

lemma UIManager_ctor_snd:
  "snd (UIManager_ctor E w) = snd (sequence E UIManager_ctor_calls w)"
  by (simp add: UIManager_ctor_def split: prod.splits sum.splits)

lemma UIManager_ctor_frame [simp]:
  "UIManager_instance (snd (UIManager_ctor E w)) = UIManager_instance w"
  "uimanagers (snd (UIManager_ctor E w)) = uimanagers w"
  "next_addr (snd (UIManager_ctor E w)) = next_addr w"
  by (simp_all add: UIManager_ctor_snd)

lemma setUpInstance_existing:
  "UIManager_instance w \<noteq> None \<Longrightarrow> setUpInstance E w = (True, w)"
  by (auto simp: setUpInstance_def)

lemma setUpInstance_True:
  assumes "setUpInstance E w = (True, w1)"
  shows "UIManager_instance w1 \<noteq> None"
proof (cases "UIManager_instance w = None")
  case False
  then show ?thesis using assms by (auto simp: setUpInstance_def)
next
  case True
  obtain res w' where c: "UIManager_ctor E w = (res, w')" by force
  show ?thesis using assms True c by (cases res) (auto simp: setUpInstance_def)
qed

text \<open>
  C10. \<open>UIManager::setUpInstance\<close> called while the static pointer is null: when the
  constructor throws, whatever it throws, the call returns false and the pointer stays
  null, with no object stored; when the constructor returns, the call returns true and
  the pointer holds the new object. The pointer is null afterwards exactly when the
  constructor threw.
\<close>

theorem setUpInstance_atomic:
  assumes "UIManager_instance w = None"
  shows "(fst (UIManager_ctor E w) = Inl x \<longrightarrow>
            setUpInstance E w = (False, snd (UIManager_ctor E w)) \<and>
            UIManager_instance (snd (setUpInstance E w)) = None \<and>
            uimanagers (snd (setUpInstance E w)) = uimanagers w) \<and>
         (fst (UIManager_ctor E w) = Inr m \<longrightarrow>
            fst (setUpInstance E w) = True \<and>
            UIManager_instance (snd (setUpInstance E w)) = Some (next_addr w) \<and>
            uimanagers (snd (setUpInstance E w)) = (uimanagers w)(next_addr w \<mapsto> m)) \<and>
         (UIManager_instance (snd (setUpInstance E w)) = None) = isl (fst (UIManager_ctor E w))"
proof -
  obtain res w' where c: "UIManager_ctor E w = (res, w')" by force
  have f: "UIManager_instance w' = UIManager_instance w" "uimanagers w' = uimanagers w"
    "next_addr w' = next_addr w"
    using UIManager_ctor_frame [of E w] c by simp_all
  show ?thesis
    using assms c f by (cases res) (simp_all add: setUpInstance_def)
qed


lemma ctor_ok: "fst (UIManager_ctor env_ok world0) = Inr \<lparr>compsList = [], manId = UI\<rparr>"
  by (simp add: UIManager_ctor_def UIManager_ctor_calls_def sequence_Cons env_ok_def del: sequence.simps(2))

lemma ctor_fails: "fst (UIManager_ctor env_gui_fails world0) = Inl OtherException"
  by (simp add: UIManager_ctor_def UIManager_ctor_calls_def sequence_Cons env_gui_fails_def del: sequence.simps(2))

theorem setUpInstance_atomic_witness:
  "UIManager_instance world0 = None \<and>
   fst (UIManager_ctor env_gui_fails world0) = Inl OtherException \<and>
   fst (setUpInstance env_gui_fails world0) = False \<and>
   UIManager_instance (snd (setUpInstance env_gui_fails world0)) = None \<and>
   fst (UIManager_ctor env_ok world0) = Inr \<lparr>compsList = [], manId = UI\<rparr> \<and>
   fst (setUpInstance env_ok world0) = True \<and>
   UIManager_instance (snd (setUpInstance env_ok world0)) = Some 0"
proof -
  have n: "UIManager_instance world0 = None" "next_addr world0 = 0"
    by (simp_all add: world0_def)
  show ?thesis
    using setUpInstance_atomic [OF n(1), of env_gui_fails OtherException]
      setUpInstance_atomic [OF n(1), of env_ok _ "\<lparr>compsList = [], manId = UI\<rparr>"]
      ctor_ok ctor_fails n
    by simp
qed


lemma setUpInstance_funpow:
  "UIManager_instance v \<noteq> None \<Longrightarrow> ((\<lambda>u. snd (setUpInstance E u)) ^^ k) v = v"
  by (induction k) (simp_all add: setUpInstance_existing)

lemma engine_steps_setupInstance:
  "PapagayoEngine_instance w \<noteq> None \<Longrightarrow>
   engine_steps r (map Call_setupInstance ns) w = (map (\<lambda>n. Reply_bool False) ns, w)"
  by (induction ns) (simp_all add: setupInstance_existing)

text \<open>
  C2, as the code has it. After a first successful \<open>PapagayoEngine::setupInstance\<close>,
  every later call returns false and changes nothing. After a first successful
  \<open>UIManager::setUpInstance\<close>, every later call changes nothing either, but it returns
  true.
\<close>

theorem setupInstance_repeated:
  assumes "setupInstance r n w = (True, w1)"
      and "setUpInstance E v = (True, v1)"
  shows "setupInstance r' n' w1 = (False, w1) \<and>
         engine_steps r' (map Call_setupInstance ns) w1 = (map (\<lambda>n. Reply_bool False) ns, w1) \<and>
         setUpInstance E' v1 = (True, v1) \<and>
         ((\<lambda>u. snd (setUpInstance E' u)) ^^ k) v1 = v1"
  using setupInstance_True [OF assms(1)] setUpInstance_True [OF assms(2)]
  by (simp add: setupInstance_existing engine_steps_setupInstance setUpInstance_existing
      setUpInstance_funpow)

lemma setUpInstance_world0:
  "setUpInstance env_ok world0 =
     (True, world0\<lparr>UIManager_instance := Some 0,
                   uimanagers := [0 \<mapsto> \<lparr>compsList = [], manId = UI\<rparr>],
                   next_addr := Suc 0, calls := UIManager_ctor_calls\<rparr>)"
  by (simp add: setUpInstance_def UIManager_ctor_def UIManager_ctor_calls_def sequence_Cons
      env_ok_def world0_def ext_def write_running_def del: sequence.simps(2))

text \<open>
  C2 as stated asks every singleton's second call to return false. The second
  \<open>UIManager::setUpInstance\<close> returns true.
\<close>

theorem setUpInstance_second_call_counterexample:
  "fst (setUpInstance env_ok world0) = True \<and>
   fst (setUpInstance env_ok (snd (setUpInstance env_ok world0))) = True \<and>
   fst (setUpInstance env_ok (snd (setUpInstance env_ok world0))) \<noteq> False"
  by (simp add: setUpInstance_world0 setUpInstance_existing)

theorem setupInstance_repeated_witness:
  "setupInstance True ''game'' world0 = (True, snd (setupInstance True ''game'' world0)) \<and>
   setUpInstance env_ok world0 = (True, snd (setUpInstance env_ok world0)) \<and>
   setupInstance False ''other'' (snd (setupInstance True ''game'' world0)) =
     (False, snd (setupInstance True ''game'' world0)) \<and>
   setUpInstance env_gui_fails (snd (setUpInstance env_ok world0)) =
     (True, snd (setUpInstance env_ok world0))"
proof -
  have a: "setupInstance True ''game'' world0 = (True, snd (setupInstance True ''game'' world0))"
    by (simp add: setupInstance_def world0_def)
  have b: "setUpInstance env_ok world0 = (True, snd (setUpInstance env_ok world0))"
    by (simp add: setUpInstance_world0)
  show ?thesis
    using setupInstance_repeated [OF a b, of False "''other''" "[]" env_gui_fails 0] a b
    by simp
qed

section \<open>init\<close>

lemma rethrow_ext:
  "rethrow pre (ext E c w) =
     (case respond E c (calls w) of
        Returns b \<Rightarrow> Inr ()
      | Throws (StdException m) \<Rightarrow> Inl (StdException (pre @ m @ ''\<newline>''))
      | Throws OtherException \<Rightarrow> Inl OtherException,
      snd (ext E c w))"
  by (simp add: rethrow_def ext_def split: outcome.splits exn.splits)

lemma propagate_ext:
  "propagate (ext E c w) =
     (case respond E c (calls w) of Returns b \<Rightarrow> Inr () | Throws x \<Rightarrow> Inl x,
      snd (ext E c w))"
  by (simp add: propagate_def ext_def split: outcome.splits)

text \<open>Whatever happens, \<open>init\<close> makes its calls in source order and stops somewhere
  along that order.\<close>

lemma init_calls_prefix:
  "\<exists>k\<le>5. calls (snd (init E w)) = calls w @ take k init_order"
proof -
  have "calls (snd (init E w)) \<in> (\<lambda>k. calls w @ take k init_order) ` {1,2,3,4,5}"
    by (simp add: init_def rethrow_ext propagate_ext init_order_def
        split: outcome.splits exn.splits)
  then obtain k where "k \<in> {1,2,3,4,5::nat}" "calls (snd (init E w)) = calls w @ take k init_order"
    by blast
  then show ?thesis by (intro exI [of _ k]) auto
qed

text \<open>
  C1, as the code has it. \<open>init\<close> sets up the Ogre context, then the resource manager,
  then the scene manager, then the shader generator and a mesh component, and no domain
  Manager. When step \<open>i\<close> is the first to throw, \<open>init\<close> stops there: the calls made are
  exactly the first \<open>i + 1\<close> steps. When that step is one of the three \<open>setupInstance\<close>
  calls and what it throws is a \<open>std::exception\<close>, the error leaving \<open>init\<close> is a
  \<open>std::runtime_error\<close> whose text is the subsystem's name, \<open>" init fail \n"\<close>, the
  original text and a newline. Anything else leaves \<open>init\<close> as it was thrown.
\<close>

theorem init_aborts_at_first_failure:
  assumes "i < length init_order"
      and "\<forall>j<i. \<exists>b. respond E (init_order ! j) (calls w @ take j init_order) = Returns b"
      and "respond E (init_order ! i) (calls w @ take i init_order) = Throws x"
  shows "calls (snd (init E w)) = calls w @ take (Suc i) init_order \<and>
         fst (init E w) =
           Inl (if i < 3 then
                  (case x of
                     StdException m \<Rightarrow>
                       StdException (subsystem_name i @ '' init fail \<newline>'' @ m @ ''\<newline>'')
                   | OtherException \<Rightarrow> OtherException)
                else x)"
proof -
  let ?R = "\<lambda>j. \<exists>b. respond E (init_order ! j) (calls w @ take j init_order) = Returns b"
  have R: "?R j" if "j < i" for j using assms(2) that by blast
  have "i < 5" using assms(1) by (simp add: init_order_def)
  then consider "i = 0" | "i = 1" | "i = 2" | "i = 3" | "i = 4" by arith
  then show ?thesis
  proof cases
    case 1
    then show ?thesis
      using assms(3)
      by (simp add: init_def rethrow_ext propagate_ext init_order_def subsystem_name_def
          split: exn.splits)
  next
    case 2
    moreover have "?R 0" using R [of 0] 2 by simp
    ultimately show ?thesis
      using assms(3)
      by (auto simp: init_def rethrow_ext propagate_ext init_order_def subsystem_name_def
          split: exn.splits)
  next
    case 3
    moreover have "?R 0" "?R 1" using R [of 0] R [of 1] 3 by simp_all
    ultimately show ?thesis
      using assms(3)
      by (auto simp: init_def rethrow_ext propagate_ext init_order_def subsystem_name_def
          split: exn.splits)
  next
    case 4
    moreover have "?R 0" "?R 1" "?R 2" using R [of 0] R [of 1] R [of 2] 4 by simp_all
    ultimately show ?thesis
      using assms(3)
      by (auto simp: init_def rethrow_ext propagate_ext init_order_def subsystem_name_def
          split: exn.splits)
  next
    case 5
    moreover have "?R 0" "?R 1" "?R 2" "?R 3" using R [of 0] R [of 1] R [of 2] R [of 3] 5 by simp_all
    ultimately show ?thesis
      using assms(3)
      by (auto simp: init_def rethrow_ext propagate_ext init_order_def subsystem_name_def
          split: exn.splits)
  qed
qed


theorem init_aborts_at_first_failure_witness:
  "calls (snd (init env_scene_fails world0)) =
     [SetupInstance OgreContext, SetupInstance ResourceManager, SetupInstance SceneManager] \<and>
   fst (init env_scene_fails world0) =
     Inl (StdException ''SceneManager init fail \<newline>no scene\<newline>'') \<and>
   names_subsystem ''SceneManager'' (fst (init env_scene_fails world0))"
proof -
  have a: "2 < length init_order" by (simp add: init_order_def)
  have b: "\<forall>j<2. \<exists>b. respond env_scene_fails (init_order ! j) (calls world0 @ take j init_order) = Returns b"
    by (auto simp: env_scene_fails_def init_order_def less_Suc_eq numeral_2_eq_2)
  have c: "respond env_scene_fails (init_order ! 2) (calls world0 @ take 2 init_order) =
             Throws (StdException ''no scene'')"
    by (simp add: env_scene_fails_def init_order_def)
  show ?thesis
    using init_aborts_at_first_failure [OF a b c]
    by (simp add: init_order_def subsystem_name_def world0_def names_subsystem_def)
qed

text \<open>
  C1 as stated asks for an error that identifies the failed subsystem whenever a step
  fails. When \<open>OgreContext::setupInstance\<close> throws a value that is not a
  \<open>std::exception\<close>, the handler does not apply and the error names nothing.
\<close>

theorem init_foreign_exception_counterexample:
  "respond env_ogre_foreign (SetupInstance OgreContext) (calls world0) = Throws OtherException \<and>
   fst (init env_ogre_foreign world0) = Inl OtherException \<and>
   \<not> names_subsystem ''OgreContext'' (fst (init env_ogre_foreign world0))"
  by (simp add: init_def rethrow_ext env_ogre_foreign_def names_subsystem_def)

lemma init_all_return:
  assumes "\<forall>c h. \<exists>b. respond E c h = Returns b"
  shows "fst (init E w) = Inr () \<and> calls (snd (init E w)) = calls w @ init_order"
proof -
  have "\<exists>b. respond E c h = Returns b" for c h using assms by blast
  then have r: "(case respond E c h of Returns b \<Rightarrow> f | Throws x \<Rightarrow> g x) = f" for c h f g
    by (metis outcome.simps(5))
  show ?thesis
    by (simp add: init_def rethrow_ext propagate_ext init_order_def r)
qed

text \<open>
  C8, as the code has it. \<open>init\<close> looks at no lifecycle state: from any world, and so
  also right after an earlier \<open>init\<close>, it makes the same five calls in the same order,
  and it fails only when one of them throws.
\<close>

theorem init_has_no_guard:
  assumes "\<forall>c h. \<exists>b. respond E c h = Returns b"
  shows "fst (init E w) = Inr () \<and>
         calls (snd (init E w)) = calls w @ init_order \<and>
         fst (init E (snd (init E w))) = Inr () \<and>
         calls (snd (init E (snd (init E w)))) = calls w @ init_order @ init_order"
  using init_all_return [OF assms, of w] init_all_return [OF assms, of "snd (init E w)"]
  by simp

theorem init_has_no_guard_witness:
  "fst (init env_once world0) = Inr () \<and>
   calls (snd (init env_once world0)) = init_order \<and>
   fst (init env_once (snd (init env_once world0))) = Inr () \<and>
   calls (snd (init env_once (snd (init env_once world0)))) = init_order @ init_order"
proof -
  have a: "\<forall>c h. \<exists>b. respond env_once c h = Returns b" by (simp add: env_once_def)
  show ?thesis using init_has_no_guard [OF a, of world0] by (simp add: world0_def)
qed

text \<open>
  C8 as stated makes a second \<open>init\<close> a no-op that reports failure. Here the second
  \<open>init\<close> finds every singleton in place (\<open>setupInstance\<close> answers false), yet it
  returns normally, after making all five calls again.
\<close>

theorem second_init_counterexample:
  "respond env_once (SetupInstance OgreContext) (calls (snd (init env_once world0))) = Returns False \<and>
   fst (init env_once (snd (init env_once world0))) = Inr () \<and>
   calls (snd (init env_once world0)) =
     [SetupInstance OgreContext, SetupInstance ResourceManager, SetupInstance SceneManager,
      SetupRTShaderGenerator, New_MeshComponent] \<and>
   calls (snd (init env_once (snd (init env_once world0)))) =
     [SetupInstance OgreContext, SetupInstance ResourceManager, SetupInstance SceneManager,
      SetupRTShaderGenerator, New_MeshComponent,
      SetupInstance OgreContext, SetupInstance ResourceManager, SetupInstance SceneManager,
      SetupRTShaderGenerator, New_MeshComponent] \<and>
   snd (init env_once (snd (init env_once world0))) \<noteq> snd (init env_once world0)"
proof -
  have a: "\<forall>c h. \<exists>b. respond env_once c h = Returns b" by (simp add: env_once_def)
  have c: "calls (snd (init env_once world0)) = init_order"
    "calls (snd (init env_once (snd (init env_once world0)))) = init_order @ init_order"
    "fst (init env_once (snd (init env_once world0))) = Inr ()"
    using init_all_return [OF a, of world0] init_all_return [OF a, of "snd (init env_once world0)"]
    by (simp_all add: world0_def)
  have d: "snd (init env_once (snd (init env_once world0))) \<noteq> snd (init env_once world0)"
  proof
    assume "snd (init env_once (snd (init env_once world0))) = snd (init env_once world0)"
    then have "calls (snd (init env_once (snd (init env_once world0)))) = calls (snd (init env_once world0))"
      by simp
    then show False using c by (simp add: init_order_def)
  qed
  show ?thesis using c d by (simp add: init_order_def env_once_def)
qed

section \<open>update and run\<close>

lemma this_running_ext:
  "this_running w = Some r \<Longrightarrow>
   this_running (snd (ext E c w)) =
     Some (case flag_write E c (calls w) of None \<Rightarrow> r | Some v \<Rightarrow> v)"
  by (auto simp: this_running_def ext_def write_running_def split: option.splits)

lemma update_calls [simp]: "calls (snd (update E w)) = calls w @ [RenderOneFrame]"
  by (simp add: update_def rethrow_ext)

lemma update_fst:
  "fst (update E w) =
     (case respond E RenderOneFrame (calls w) of
        Returns b \<Rightarrow> Inr ()
      | Throws (StdException m) \<Rightarrow>
          Inl (StdException (''Fallo de renderizado \<newline>'' @ m @ ''\<newline>''))
      | Throws OtherException \<Rightarrow> Inl OtherException)"
  by (simp add: update_def rethrow_ext)

lemma this_running_update:
  "this_running w = Some r \<Longrightarrow>
   this_running (snd (update E w)) =
     Some (case flag_write E RenderOneFrame (calls w) of None \<Rightarrow> r | Some v \<Rightarrow> v)"
  by (simp add: update_def rethrow_ext this_running_ext)

lemma run_loop_stop: "this_running w = Some False \<Longrightarrow> run_loop fuel E w = (Finished, w)"
  by (cases fuel) simp_all

lemma run_loop_frame:
  assumes "this_running w = Some True"
      and "respond E RenderOneFrame (calls w) = Returns b"
  shows "run_loop (Suc n) E w = run_loop n E (snd (update E w))"
proof -
  obtain res w' where u: "update E w = (res, w')" by force
  have "fst (update E w) = Inr ()" using assms(2) by (simp add: update_fst)
  then have "res = Inr ()" using u by simp
  then show ?thesis using assms(1) u by simp
qed

lemma run_loop_throw:
  assumes "this_running w = Some True"
      and "respond E RenderOneFrame (calls w) = Throws x"
  shows "\<exists>y. run_loop (Suc n) E w = (Failed (Thrown y), snd (update E w)) \<and> fst (update E w) = Inl y"
proof -
  obtain res w' where u: "update E w = (res, w')" by force
  obtain y where y: "fst (update E w) = Inl y"
    using assms(2) by (cases x) (simp_all add: update_fst)
  then have "res = Inl y" using u by simp
  then show ?thesis using assms(1) u by simp
qed

lemma run_loop_frames:
  assumes "this_running w = Some r"
      and "\<forall>j<k. flag_at E (calls w) r j"
      and "\<forall>j<k. \<exists>b. respond E RenderOneFrame (calls w @ replicate j RenderOneFrame) = Returns b"
      and "k \<le> fuel"
  shows "\<exists>wk. run_loop fuel E w = run_loop (fuel - k) E wk \<and>
              calls wk = calls w @ replicate k RenderOneFrame \<and>
              this_running wk = Some (flag_at E (calls w) r k)"
  using assms
proof (induction k)
  case 0
  then show ?case by (intro exI [of _ w]) simp
next
  case (Suc k)
  then obtain wk where wk: "run_loop fuel E w = run_loop (fuel - k) E wk"
      "calls wk = calls w @ replicate k RenderOneFrame"
      "this_running wk = Some (flag_at E (calls w) r k)"
    by force
  have t: "this_running wk = Some True" using wk(3) Suc.prems(2) by simp
  obtain b where b: "respond E RenderOneFrame (calls wk) = Returns b"
    using Suc.prems(3) wk(2) by auto
  have f: "fuel - k = Suc (fuel - Suc k)" using Suc.prems(4) by simp
  let ?w = "snd (update E wk)"
  have "run_loop fuel E w = run_loop (fuel - Suc k) E ?w"
    using wk(1) f run_loop_frame [OF t b] by simp
  moreover have "calls ?w = calls w @ replicate (Suc k) RenderOneFrame"
    using wk(2) by (simp add: replicate_append_same)
  moreover have "this_running ?w = Some (flag_at E (calls w) r (Suc k))"
    using this_running_update [OF t, of E] wk(2) Suc.prems(2) by (simp split: option.splits)
  ultimately show ?case by blast
qed

lemma init_success_calls:
  assumes "init E w = (Inr (), w0)"
  shows "calls w0 = calls w @ init_order"
proof -
  have "fst (init E w) = Inr () \<longrightarrow> calls (snd (init E w)) = calls w @ init_order"
    by (simp add: init_def rethrow_ext propagate_ext init_order_def
        split: outcome.splits exn.splits)
  then show ?thesis using assms by simp
qed


text \<open>
  C3. After a successful \<open>init\<close>, \<open>run\<close> calls \<open>update\<close> once per iteration for as long
  as \<open>running_\<close> holds at the top of the iteration. When the flag first fails to hold at
  the top of iteration \<open>k\<close> (because it never held, or because frame \<open>k - 1\<close> cleared it
  while it ran), \<open>run\<close> returns: the calls made are those of \<open>init\<close> followed by exactly
  \<open>k\<close> complete frames, the frame that cleared the flag among them, and none after.
\<close>

theorem run_stops_when_flag_is_cleared:
  assumes "init E w = (Inr (), w0)"
      and "this_running w0 = Some r"
      and "\<forall>j<k. flag_at E (calls w0) r j"
      and "\<not> flag_at E (calls w0) r k"
      and "\<forall>j<k. \<exists>b. respond E RenderOneFrame (calls w0 @ replicate j RenderOneFrame) = Returns b"
      and "k \<le> fuel"
  shows "fst (run fuel E w) = Finished \<and>
         calls (snd (run fuel E w)) = calls w @ init_order @ replicate k RenderOneFrame \<and>
         this_running (snd (run fuel E w)) = Some False"
proof -
  obtain wk where wk: "run_loop fuel E w0 = run_loop (fuel - k) E wk"
      "calls wk = calls w0 @ replicate k RenderOneFrame"
      "this_running wk = Some (flag_at E (calls w0) r k)"
    using run_loop_frames [OF assms(2,3,5,6)] by blast
  have s: "this_running wk = Some False" using wk(3) assms(4) by simp
  have "run fuel E w = (Finished, wk)"
    using assms(1) wk(1) run_loop_stop [OF s] by (simp add: run_def)
  then show ?thesis
    using s wk(2) init_success_calls [OF assms(1)] by simp
qed

lemma all_less_3: "(\<forall>j<3. P j) = (P 0 \<and> P (Suc 0) \<and> P (Suc (Suc 0)))"
  by (auto simp: less_Suc_eq numeral_3_eq_3)

lemma all_less_2: "(\<forall>j<2. P j) = (P 0 \<and> P (Suc 0))"
  by (auto simp: less_Suc_eq numeral_2_eq_2)

lemma init_world_engine:
  assumes "\<forall>c h. length h < 5 \<longrightarrow> respond E c h = Returns True \<and> flag_write E c h = None"
  shows "init E world_engine = (Inr (), world_engine\<lparr>calls := init_order\<rparr>)"
proof -
  have r: "respond E c [] = Returns True" "respond E c [c1] = Returns True"
    "respond E c [c1, c2] = Returns True" "respond E c [c1, c2, c3] = Returns True"
    "respond E c [c1, c2, c3, c4] = Returns True"
    "flag_write E c [] = None" "flag_write E c [c1] = None"
    "flag_write E c [c1, c2] = None" "flag_write E c [c1, c2, c3] = None"
    "flag_write E c [c1, c2, c3, c4] = None" for c c1 c2 c3 c4
    using assms by simp_all
  show ?thesis
    by (simp add: init_def rethrow_def propagate_def ext_def write_running_def r
        world_engine_def setupInstance_def world0_def init_order_def)
qed

lemma this_running_world_engine: "this_running (world_engine\<lparr>calls := h\<rparr>) = Some True"
  by (simp add: this_running_def world_engine_def setupInstance_def world0_def
      PapagayoEngine_ctor_def)

theorem run_stops_when_flag_is_cleared_witness:
  "fst (run 10 env_stop_in_third_frame world_engine) = Finished \<and>
   calls (snd (run 10 env_stop_in_third_frame world_engine)) =
     init_order @ [RenderOneFrame, RenderOneFrame, RenderOneFrame] \<and>
   this_running (snd (run 10 env_stop_in_third_frame world_engine)) = Some False"
proof -
  let ?E = env_stop_in_third_frame
  let ?w0 = "world_engine\<lparr>calls := init_order\<rparr>"
  have a: "init ?E world_engine = (Inr (), ?w0)"
    by (rule init_world_engine) (simp add: env_stop_in_third_frame_def)
  have b: "this_running ?w0 = Some True" by (rule this_running_world_engine)
  have c: "\<forall>j<3. flag_at ?E (calls ?w0) True j"
    by (simp add: all_less_3 env_stop_in_third_frame_def init_order_def)
  have d: "\<not> flag_at ?E (calls ?w0) True 3"
    by (simp add: numeral_3_eq_3 env_stop_in_third_frame_def init_order_def)
  have e: "\<forall>j<3. \<exists>b. respond ?E RenderOneFrame (calls ?w0 @ replicate j RenderOneFrame) = Returns b"
    by (auto simp: env_stop_in_third_frame_def)
  have f: "(3::nat) \<le> 10" by simp
  have g: "calls world_engine = []" by (simp add: world_engine_def setupInstance_def world0_def)
  show ?thesis
    using run_stops_when_flag_is_cleared [OF a b c d e f] g
    by (simp add: numeral_3_eq_3)
qed

text \<open>
  C5, as the code has it. \<open>update\<close> makes one external call, the frame, and no call on
  any Manager. A \<open>std::exception\<close> from the frame leaves \<open>update\<close> as a
  \<open>std::runtime_error\<close> with the prefix \<open>"Fallo de renderizado \n"\<close>, any other thrown
  value as it is; either way \<open>run\<close> ends with that error, the failed frame being its
  last call.
\<close>

theorem update_one_frame_failure_ends_run:
  assumes "init E w = (Inr (), w0)"
      and "this_running w0 = Some r"
      and "\<forall>j<Suc k. flag_at E (calls w0) r j"
      and "\<forall>j<k. \<exists>b. respond E RenderOneFrame (calls w0 @ replicate j RenderOneFrame) = Returns b"
      and "respond E RenderOneFrame (calls w0 @ replicate k RenderOneFrame) = Throws x"
      and "k < fuel"
  shows "calls (snd (update E v)) = calls v @ [RenderOneFrame] \<and>
         fst (update E v) =
           (case respond E RenderOneFrame (calls v) of
              Returns b \<Rightarrow> Inr ()
            | Throws (StdException m) \<Rightarrow>
                Inl (StdException (''Fallo de renderizado \<newline>'' @ m @ ''\<newline>''))
            | Throws OtherException \<Rightarrow> Inl OtherException) \<and>
         fst (run fuel E w) =
           Failed (Thrown (case x of
                             StdException m \<Rightarrow>
                               StdException (''Fallo de renderizado \<newline>'' @ m @ ''\<newline>'')
                           | OtherException \<Rightarrow> OtherException)) \<and>
         calls (snd (run fuel E w)) = calls w @ init_order @ replicate (Suc k) RenderOneFrame"
proof -
  have le: "k \<le> fuel" using assms(6) by simp
  have fl: "\<forall>j<k. flag_at E (calls w0) r j" using assms(3) by simp
  obtain wk where wk: "run_loop fuel E w0 = run_loop (fuel - k) E wk"
      "calls wk = calls w0 @ replicate k RenderOneFrame"
      "this_running wk = Some (flag_at E (calls w0) r k)"
    using run_loop_frames [OF assms(2) fl assms(4) le] by blast
  have t: "this_running wk = Some True" using wk(3) assms(3) by simp
  have x: "respond E RenderOneFrame (calls wk) = Throws x" using assms(5) wk(2) by simp
  have f: "fuel - k = Suc (fuel - Suc k)" using assms(6) by simp
  obtain y where y: "run_loop (Suc (fuel - Suc k)) E wk = (Failed (Thrown y), snd (update E wk))"
      "fst (update E wk) = Inl y"
    using run_loop_throw [OF t x] by blast
  have yx: "y = (case x of
                   StdException m \<Rightarrow>
                     StdException (''Fallo de renderizado \<newline>'' @ m @ ''\<newline>'')
                 | OtherException \<Rightarrow> OtherException)"
    using y(2) x by (cases x) (simp_all add: update_fst)
  have "run fuel E w = (Failed (Thrown y), snd (update E wk))"
    using assms(1) wk(1) f y(1) by (simp add: run_def)
  then show ?thesis
    using yx wk(2) init_success_calls [OF assms(1)]
    by (simp add: update_fst replicate_append_same)
qed

theorem update_one_frame_failure_ends_run_witness:
  "calls (snd (update env_third_frame_fails world_engine)) = [RenderOneFrame] \<and>
   fst (update env_third_frame_fails world_engine) = Inr () \<and>
   fst (run 10 env_third_frame_fails world_engine) =
     Failed (Thrown (StdException ''Fallo de renderizado \<newline>device lost\<newline>'')) \<and>
   calls (snd (run 10 env_third_frame_fails world_engine)) =
     init_order @ [RenderOneFrame, RenderOneFrame, RenderOneFrame]"
proof -
  let ?E = env_third_frame_fails
  let ?w0 = "world_engine\<lparr>calls := init_order\<rparr>"
  have a: "init ?E world_engine = (Inr (), ?w0)"
    by (rule init_world_engine) (simp add: env_third_frame_fails_def)
  have b: "this_running ?w0 = Some True" by (rule this_running_world_engine)
  have c: "\<forall>j<Suc 2. flag_at ?E (calls ?w0) True j"
    by (simp add: less_Suc_eq numeral_2_eq_2 env_third_frame_fails_def init_order_def)
  have e: "\<forall>j<2. \<exists>b. respond ?E RenderOneFrame (calls ?w0 @ replicate j RenderOneFrame) = Returns b"
    by (auto simp: all_less_2 env_third_frame_fails_def init_order_def)
  have x: "respond ?E RenderOneFrame (calls ?w0 @ replicate 2 RenderOneFrame) =
             Throws (StdException ''device lost'')"
    by (simp add: env_third_frame_fails_def init_order_def)
  have f: "(2::nat) < 10" by simp
  have g: "calls world_engine = []" by (simp add: world_engine_def setupInstance_def world0_def)
  show ?thesis
    using update_one_frame_failure_ends_run [OF a b c e x f, of world_engine] g
    by (simp add: numeral_2_eq_2 env_third_frame_fails_def)
qed

text \<open>
  C5 as stated has \<open>update\<close> go on to every Manager's \<open>update\<close>. The calls of
  \<open>update\<close> are the frame alone.
\<close>

theorem update_calls_no_manager_counterexample:
  "calls (snd (update env_ok world_engine)) = [RenderOneFrame] \<and>
   update_calls_spec = [RenderOneFrame, Update ResourceManager, Update SceneManager] \<and>
   calls (snd (update env_ok world_engine)) \<noteq> update_calls_spec"
  by (simp add: update_calls_spec_def init_managers_def world_engine_def setupInstance_def
      world0_def)

section \<open>Managers: start and update\<close>













section \<open>Scene: entity names\<close>

lemma digit_inj: "a < 10 \<Longrightarrow> b < 10 \<Longrightarrow> digit a = digit b \<Longrightarrow> a = b"
  by (simp add: digit_def char_of_eq_iff take_bit_nat_eq_self)

lemma to_string_not_Nil: "to_string n \<noteq> []"
  by (subst to_string.simps) simp

lemma to_string_inj: "to_string a = to_string b \<Longrightarrow> a = b"
proof (induction a arbitrary: b rule: to_string.induct)
  case (1 a)
  show ?case
  proof (cases "a < 10")
    case a: True
    show ?thesis
    proof (cases "b < 10")
      case True
      then show ?thesis using "1.prems" a digit_inj [of a b]
        by (simp add: to_string.simps [of a] to_string.simps [of b])
    next
      case False
      then show ?thesis using "1.prems" a to_string_not_Nil [of "b div 10"]
        by (simp add: to_string.simps [of a] to_string.simps [of b])
    qed
  next
    case a: False
    show ?thesis
    proof (cases "b < 10")
      case True
      then show ?thesis using "1.prems" a to_string_not_Nil [of "a div 10"]
        by (simp add: to_string.simps [of a] to_string.simps [of b])
    next
      case False
      then have "to_string (a div 10) = to_string (b div 10)" "digit (a mod 10) = digit (b mod 10)"
        using "1.prems" a by (simp_all add: to_string.simps [of a] to_string.simps [of b])
      then have "a div 10 = b div 10" "a mod 10 = b mod 10"
        using "1.IH" [OF a] digit_inj [of "a mod 10" "b mod 10"] by simp_all
      then show ?thesis by (metis div_mult_mod_eq)
    qed
  qed
qed

lemma entity_key_inj: "entity_key n i = entity_key n j \<Longrightarrow> i = j"
  by (auto simp: entity_key_def dest: to_string_inj split: if_splits)

lemma addEntities_snoc: "addEntities n (es @ [e]) sc = addEntity n e (addEntities n es sc)"
  by (simp add: addEntities_def)

lemma addEntities_invariant:
  "dom (entities (addEntities n es Scene_ctor)) = entity_key n ` {..<length es} \<and>
   (\<forall>i<length es. entities (addEntities n es Scene_ctor) (entity_key n i) = Some (es ! i)) \<and>
   usedNames (addEntities n es Scene_ctor) n =
     (if length es \<le> 1 then None else Some (length es - 1))"
proof (induction es rule: rev_induct)
  case Nil
  show ?case by (simp add: addEntities_def Scene_ctor_def)
next
  case (snoc e es)
  let ?sc = "addEntities n es Scene_ctor"
  show ?case
  proof (cases "es = []")
    case True
    then show ?thesis
      by (auto simp: addEntities_def addEntity_def Scene_ctor_def entity_key_def
          split: if_splits)
  next
    case False
    then have len: "0 < length es" by simp
    have "entities ?sc (entity_key n 0) = Some (es ! 0)" using snoc.IH len by blast
    then have used: "entities ?sc n \<noteq> None" by (simp add: entity_key_def)
    have un: "usedNames ?sc n = (if length es \<le> 1 then None else Some (length es - 1))"
      using snoc.IH by blast
    have cnt: "Suc (case usedNames ?sc n of None \<Rightarrow> 0 | Some k \<Rightarrow> k) = length es"
      using un len by (cases "length es = 1") auto
    have key: "n @ ''_'' @ to_string (length es) = entity_key n (length es)"
      using len by (simp add: entity_key_def)
    have step: "addEntities n (es @ [e]) Scene_ctor =
                  ?sc\<lparr>entities := (entities ?sc)(entity_key n (length es) \<mapsto> e),
                       usedNames := (usedNames ?sc)(n \<mapsto> length es)\<rparr>"
      using used cnt key by (auto simp: addEntities_snoc addEntity_def Let_def)
    have d: "dom (entities (addEntities n (es @ [e]) Scene_ctor)) =
               entity_key n ` {..<length (es @ [e])}"
      using snoc.IH by (simp add: step lessThan_Suc)
    have v: "entities (addEntities n (es @ [e]) Scene_ctor) (entity_key n i) = Some ((es @ [e]) ! i)"
      if "i < length (es @ [e])" for i
    proof (cases "i = length es")
      case True
      then show ?thesis by (simp add: step)
    next
      case False
      then have i: "i < length es" using that by simp
      have "entity_key n i \<noteq> entity_key n (length es)"
        using entity_key_inj [of n i "length es"] False by blast
      then show ?thesis using snoc.IH i by (simp add: step nth_append)
    qed
    have u: "usedNames (addEntities n (es @ [e]) Scene_ctor) n =
               (if length (es @ [e]) \<le> 1 then None else Some (length (es @ [e]) - 1))"
      using len by (simp add: step)
    show ?thesis using d v u by blast
  qed
qed

text \<open>
  C4. Starting from a new Scene, add the same base name once for each entity of a list
  of length \<open>N\<close>. The Scene then holds exactly the \<open>N\<close> keys \<open>name\<close>, \<open>name_1\<close>, ...,
  \<open>name_(N-1)\<close>, all different; the entity added at position \<open>i\<close> is the one stored
  under key \<open>i\<close>, so nothing was overwritten; and the counter kept for the base name
  stands at \<open>N - 1\<close> for the next collision.
\<close>

theorem addEntity_same_name_distinct_keys:
  "dom (entities (addEntities n es Scene_ctor)) = set (map (entity_key n) [0..<length es]) \<and>
   distinct (map (entity_key n) [0..<length es]) \<and>
   card (dom (entities (addEntities n es Scene_ctor))) = length es \<and>
   map (entities (addEntities n es Scene_ctor)) (map (entity_key n) [0..<length es]) =
     map Some es \<and>
   usedNames (addEntities n es Scene_ctor) n =
     (if length es \<le> 1 then None else Some (length es - 1))"
proof -
  have inj: "inj_on (entity_key n) A" for A
    by (rule inj_onI) (rule entity_key_inj)
  have a: "dom (entities (addEntities n es Scene_ctor)) = set (map (entity_key n) [0..<length es])"
    using addEntities_invariant [of n es] by (simp add: atLeast0LessThan)
  have b: "distinct (map (entity_key n) [0..<length es])"
    by (simp add: distinct_map inj)
  have c: "card (dom (entities (addEntities n es Scene_ctor))) = length es"
    using a b distinct_card [of "map (entity_key n) [0..<length es]"] by simp
  have d: "map (entities (addEntities n es Scene_ctor)) (map (entity_key n) [0..<length es]) =
             map Some es"
  proof -
    have "\<forall>i<length es. entities (addEntities n es Scene_ctor) (entity_key n i) = Some (es ! i)"
      using addEntities_invariant [of n es] by (rule conjunct2 [THEN conjunct1])
    then show ?thesis by (intro nth_equalityI) simp_all
  qed
  have e: "usedNames (addEntities n es Scene_ctor) n =
             (if length es \<le> 1 then None else Some (length es - 1))"
    using addEntities_invariant [of n es] by (rule conjunct2 [THEN conjunct2])
  show ?thesis using a b c d e by (intro conjI)
qed

lemma digit_1: "digit (Suc 0) = CHR ''1''"
  by code_simp

lemma digit_2: "digit (Suc (Suc 0)) = CHR ''2''"
  by code_simp

lemma to_string_1: "to_string (Suc 0) = ''1''"
  by (simp add: to_string.simps [of "Suc 0"] digit_1)

lemma to_string_2: "to_string (Suc (Suc 0)) = ''2''"
  by (simp add: to_string.simps [of "Suc (Suc 0)"] digit_2)


theorem addEntity_same_name_distinct_keys_witness:
  "dom (entities (addEntities ''Enemy'' [10, 11, 12] Scene_ctor)) =
     {''Enemy'', ''Enemy_1'', ''Enemy_2''} \<and>
   card (dom (entities (addEntities ''Enemy'' [10, 11, 12] Scene_ctor))) = 3 \<and>
   map (entities (addEntities ''Enemy'' [10, 11, 12] Scene_ctor))
     [''Enemy'', ''Enemy_1'', ''Enemy_2''] = [Some 10, Some 11, Some 12] \<and>
   usedNames (addEntities ''Enemy'' [10, 11, 12] Scene_ctor) ''Enemy'' = Some 2"
proof -
  have k: "map (entity_key ''Enemy'') [0..<length [10, 11, 12::nat]] =
             [''Enemy'', ''Enemy_1'', ''Enemy_2'']"
    by (simp add: upt_rec entity_key_def to_string_1 to_string_2)
  show ?thesis
    using addEntity_same_name_distinct_keys [of "''Enemy''" "[10, 11, 12]"]
    unfolding k by simp
qed

end
